theory Spec2Isabelle
  imports Main
begin

section \<open>Data model\<close>

text \<open>
  A Nostr event as the hooks read it (\<^verbatim>\<open>NostrEvent\<close> of the relay library): the
  fields a signer is given (\<^verbatim>\<open>kind\<close>, \<^verbatim>\<open>content\<close>, \<^verbatim>\<open>tags\<close>, \<^verbatim>\<open>created_at\<close>)
  and the ones it adds (\<^verbatim>\<open>id\<close>, \<^verbatim>\<open>pubkey\<close>, \<^verbatim>\<open>sig\<close>). A tag is an array of strings
  whose first element is the tag's name. The field \<^verbatim>\<open>id\<close> is written \<open>id'\<close>.
  Strings are byte strings (UTF-8); the hooks only compare them, test them for
  emptiness and search them for an ASCII needle.
\<close>

record EventTemplate =
  kind :: int
  content :: string
  tags :: "string list list"
  created_at :: int

record NostrEvent = EventTemplate +
  id' :: string
  pubkey :: string
  sig :: string

subsection \<open>JavaScript primitives the hooks use\<close>

text \<open>\<^verbatim>\<open>([name]) => name === n\<close>: the first element of a tag, compared with \<open>n\<close>;
  an empty tag has no first element and never matches.\<close>

definition tag_named :: "string \<Rightarrow> string list \<Rightarrow> bool" where
  "tag_named n t = (case t of [] \<Rightarrow> False | name # _ \<Rightarrow> name = n)"

text \<open>\<^verbatim>\<open>t[1]\<close> on an array: \<^verbatim>\<open>undefined\<close> (here \<open>None\<close>) when the array is shorter.\<close>

definition at1 :: "string list \<Rightarrow> string option" where
  "at1 t = (case t of _ # v # _ \<Rightarrow> Some v | _ \<Rightarrow> None)"

text \<open>Truthiness of a \<^verbatim>\<open>string | undefined\<close>: \<^verbatim>\<open>undefined\<close> and \<^verbatim>\<open>""\<close> are falsy.\<close>

definition truthy :: "string option \<Rightarrow> bool" where
  "truthy v = (case v of None \<Rightarrow> False | Some s \<Rightarrow> s \<noteq> [])"

text \<open>\<^verbatim>\<open>s.startsWith(n)\<close> and \<^verbatim>\<open>s.includes(n)\<close> (written \<open>String_includes\<close>).\<close>

fun startsWith :: "string \<Rightarrow> string \<Rightarrow> bool" where
  "startsWith s [] = True"
| "startsWith [] (c # n) = False"
| "startsWith (d # s) (c # n) = (d = c \<and> startsWith s n)"

fun String_includes :: "string \<Rightarrow> string \<Rightarrow> bool" where
  "String_includes [] n = (n = [])"
| "String_includes (c # s) n = (startsWith (c # s) n \<or> String_includes s n)"

section \<open>Image posts: \<^verbatim>\<open>src/hooks/useUserImagePosts.ts\<close>\<close>

subsection \<open>\<^verbatim>\<open>validateImageEvent\<close>\<close>

definition validateImageEvent :: "NostrEvent \<Rightarrow> bool" where
  "validateImageEvent event =
     (if kind event \<noteq> 20 then False
      else
        let title = (case find (tag_named ''title'') (tags event) of
                       None \<Rightarrow> None | Some t \<Rightarrow> at1 t);
            imeta = find (tag_named ''imeta'') (tags event)
        in if \<not> truthy title \<and> imeta = None then False
           else if (case imeta of
                      None \<Rightarrow> False
                    | Some t \<Rightarrow>
                        (case at1 t of
                           None \<Rightarrow> False
                         | Some v \<Rightarrow> v \<noteq> [] \<and> \<not> String_includes v ''url''))
                then False
           else True)"

subsection \<open>Collaborators\<close>

text \<open>
  The relay pool, the signer and the query cache are external. A hook is modelled as a
  function of the collaborators' answers (the record \<open>world\<close>) that returns its result
  together with the list of collaborator calls it made, in order. A rejected promise or
  a \<^verbatim>\<open>throw\<close> is \<open>Inl\<close> of the error. Calls to \<^verbatim>\<open>console\<close> are left out.
\<close>

datatype error = Error string | TypeError

text \<open>
  Cancellation signals as the hooks build them: the signal the query library hands to a
  query function (\<open>CallerSignal\<close>), \<^verbatim>\<open>AbortSignal.timeout(ms)\<close> and
  \<^verbatim>\<open>AbortSignal.any([...])\<close>.
\<close>

datatype AbortSignal =
    CallerSignal
  | AbortSignal_timeout nat
  | AbortSignal_any "AbortSignal list"

text \<open>
  When a signal is aborted, given whether the caller has cancelled and the milliseconds
  elapsed since the signal was built: a timeout signal once its time has passed, a
  combined signal once any of its sources is.
\<close>

fun aborted :: "bool \<Rightarrow> nat \<Rightarrow> AbortSignal \<Rightarrow> bool" where
  "aborted cancelled elapsed CallerSignal = cancelled"
| "aborted cancelled elapsed (AbortSignal_timeout ms) = (ms \<le> elapsed)"
| "aborted cancelled elapsed (AbortSignal_any signals) =
     list_ex (aborted cancelled elapsed) signals"

text \<open>A relay filter; \<^verbatim>\<open>'#e'\<close> is written \<open>tag_e\<close>. An absent key is \<open>None\<close>.\<close>

record NostrFilter =
  kinds :: "int list"
  authors :: "string list option"
  tag_e :: "string list option"
  limit :: nat
  until :: "int option"

datatype NRelay1 = NRelay1 string

text \<open>
  An \<^verbatim>\<open>NPool\<close> object: its identity (\<open>ref\<close>, the number of pool objects constructed
  before it) and the options it was constructed with. The \<^verbatim>\<open>Map\<close> a request router
  returns is the list of its entries in insertion order.
\<close>

record NPool =
  ref :: nat
  open' :: "string \<Rightarrow> NRelay1"
  reqRouter :: "NostrFilter list \<Rightarrow> (string \<times> NostrFilter list) list"
  eventRouter :: "string list"

datatype call =
    Pool_query NPool "NostrFilter list" AbortSignal
  | Nostr_query "NostrFilter list" AbortSignal
  | Signer_signEvent EventTemplate
  | Nostr_event NostrEvent

record world =
  pool_query :: "NPool \<Rightarrow> NostrFilter list \<Rightarrow> AbortSignal \<Rightarrow> error + NostrEvent list"
  nostr_query :: "NostrFilter list \<Rightarrow> AbortSignal \<Rightarrow> error + NostrEvent list"
  nostr_event :: "NostrEvent \<Rightarrow> error + unit"
  Date_now :: int

subsection \<open>\<^verbatim>\<open>getDiscoveryPool\<close>\<close>

text \<open>
  The module's state: the variable \<^verbatim>\<open>sharedDiscoveryPool\<close> (\<^verbatim>\<open>null\<close> is \<open>None\<close>) and
  the number of \<^verbatim>\<open>NPool\<close> objects constructed so far.
\<close>

record module_state =
  sharedDiscoveryPool :: "NPool option"
  constructed :: nat

definition discoveryRelays :: "string list" where
  "discoveryRelays =
     [''wss://relay.nostr.band'',
      ''wss://relay.primal.net'',
      ''wss://relay.olas.app'',
      ''wss://nos.lol'',
      ''wss://relay.snort.social'',
      ''wss://purplepag.es'']"

definition getDiscoveryPool :: "module_state \<Rightarrow> NPool \<times> module_state" where
  "getDiscoveryPool st =
     (case sharedDiscoveryPool st of
        None \<Rightarrow>
          let pool = \<lparr>ref = constructed st,
                      open' = (\<lambda>url. NRelay1 url),
                      reqRouter = (\<lambda>filters. map (\<lambda>url. (url, filters)) discoveryRelays),
                      eventRouter = take 3 discoveryRelays\<rparr>
          in (pool, st\<lparr>sharedDiscoveryPool := Some pool,
                        constructed := Suc (constructed st)\<rparr>)
      | Some pool \<Rightarrow> (pool, st))"

subsection \<open>\<^verbatim>\<open>useUserImagePosts\<close>: the query function\<close>

record Page =
  events :: "NostrEvent list"
  nextCursor :: "int option"

text \<open>
  \<^verbatim>\<open>Array.prototype.sort(cmp)\<close>: a stable sort; an element goes before the first
  element of the sorted rest that it does not compare greater than.
\<close>

fun insert_by :: "('a \<Rightarrow> 'a \<Rightarrow> int) \<Rightarrow> 'a \<Rightarrow> 'a list \<Rightarrow> 'a list" where
  "insert_by cmp x [] = [x]"
| "insert_by cmp x (y # ys) =
     (if cmp x y \<le> 0 then x # y # ys else y # insert_by cmp x ys)"

definition Array_sort :: "('a \<Rightarrow> 'a \<Rightarrow> int) \<Rightarrow> 'a list \<Rightarrow> 'a list" where
  "Array_sort cmp xs = foldr (insert_by cmp) xs []"

text \<open>The \<^verbatim>\<open>reduce\<close> that drops an event whose id is already in the accumulator.\<close>

definition dedupe_step :: "NostrEvent list \<Rightarrow> NostrEvent \<Rightarrow> NostrEvent list" where
  "dedupe_step acc event =
     (if find (\<lambda>e. id' e = id' event) acc = None then acc @ [event] else acc)"

text \<open>
  \<^verbatim>\<open>queryFn({ pageParam, signal })\<close> of the hook called with \<^verbatim>\<open>pubkey\<close> (here \<open>pubkey'\<close>). \<^verbatim>\<open>!pubkey\<close>
  holds for \<^verbatim>\<open>undefined\<close> and for the empty string; \<^verbatim>\<open>if (pageParam)\<close> fails for
  \<^verbatim>\<open>undefined\<close> and for \<open>0\<close>. An error of the pool is logged and thrown again.
\<close>

definition useUserImagePosts_queryFn ::
  "world \<Rightarrow> string option \<Rightarrow> int option \<Rightarrow> module_state
     \<Rightarrow> (error + Page) \<times> call list \<times> module_state" where
  "useUserImagePosts_queryFn w pubkey' pageParam st =
     (case pubkey' of
        None \<Rightarrow> (Inr \<lparr>events = [], nextCursor = None\<rparr>, [], st)
      | Some pk \<Rightarrow>
          if pk = [] then (Inr \<lparr>events = [], nextCursor = None\<rparr>, [], st)
          else
            let querySignal = AbortSignal_any [CallerSignal, AbortSignal_timeout 10000];
                (discoveryPool, st') = getDiscoveryPool st;
                filter0 = \<lparr>kinds = [20], authors = Some [pk], tag_e = None,
                           limit = 15, until = None\<rparr>;
                filter' = (case pageParam of
                             None \<Rightarrow> filter0
                           | Some p \<Rightarrow> if p \<noteq> 0 then filter0\<lparr>until := Some p\<rparr> else filter0)
            in (case pool_query w discoveryPool [filter'] querySignal of
                 Inl err \<Rightarrow> (Inl err, [Pool_query discoveryPool [filter'] querySignal], st')
               | Inr events' \<Rightarrow>
                   let validEvents = filter validateImageEvent events';
                       uniqueEvents = foldl dedupe_step [] validEvents;
                       sortedEvents =
                         Array_sort (\<lambda>a b. created_at b - created_at a) uniqueEvents
                   in (Inr \<lparr>events = sortedEvents,
                             nextCursor =
                               (if length events' < limit filter' then None
                                else (case sortedEvents of
                                        [] \<Rightarrow> None
                                      | _ # _ \<Rightarrow> Some (created_at (last sortedEvents))))\<rparr>,
                       [Pool_query discoveryPool [filter'] querySignal], st')))"

section \<open>Reactions: the reaction hooks\<close>

subsection \<open>\<^verbatim>\<open>validateReactionEvent\<close>\<close>

definition validateReactionEvent :: "NostrEvent \<Rightarrow> bool" where
  "validateReactionEvent event =
     (if kind event \<noteq> 7 then False
      else
        let eTag = find (tag_named ''e'') (tags event)
        in if (case eTag of None \<Rightarrow> True | Some t \<Rightarrow> \<not> truthy (at1 t)) then False
           else
             let pTag = find (tag_named ''p'') (tags event)
             in if (case pTag of None \<Rightarrow> True | Some t \<Rightarrow> \<not> truthy (at1 t)) then False
                else True)"

subsection \<open>The current user\<close>

text \<open>
  What \<^verbatim>\<open>useCurrentUser\<close> gives: \<^verbatim>\<open>user\<close> is \<^verbatim>\<open>undefined\<close> (\<open>None\<close>) when nobody is
  logged in; \<^verbatim>\<open>user.pubkey\<close> is written \<open>user_pubkey\<close>. \<^verbatim>\<open>user?.signer\<close> is
  \<open>user_signer\<close>.
\<close>

record NostrSigner =
  signEvent :: "EventTemplate \<Rightarrow> error + NostrEvent"

record NUser =
  user_pubkey :: string
  signer :: "NostrSigner option"

definition user_signer :: "NUser option \<Rightarrow> NostrSigner option" where
  "user_signer user = (case user of None \<Rightarrow> None | Some u \<Rightarrow> signer u)"

subsection \<open>\<^verbatim>\<open>useReactions\<close>: the query function\<close>

record ReactionEntry =
  count :: nat
  users :: "string list"
  hasReacted :: bool

text \<open>\<^verbatim>\<open>reaction.content || '+'\<close>: an empty content is falsy.\<close>

definition content_or_plus :: "NostrEvent \<Rightarrow> string" where
  "content_or_plus reaction = (if content reaction \<noteq> [] then content reaction else ''+'')"

text \<open>
  The accumulator of the \<^verbatim>\<open>reduce\<close> is a plain object \<^verbatim>\<open>{}\<close>, so \<^verbatim>\<open>acc[content]\<close>
  also finds what the object inherits from \<^verbatim>\<open>Object.prototype\<close>. Each inherited
  value is a function or an object: it is truthy, no entry is created, and
  \<^verbatim>\<open>acc[content].users.push\<close> throws a \<^verbatim>\<open>TypeError\<close>, because it has no \<^verbatim>\<open>users\<close>.
\<close>

definition Object_prototype_keys :: "string list" where
  "Object_prototype_keys =
     [''constructor'', ''hasOwnProperty'', ''isPrototypeOf'', ''propertyIsEnumerable'',
      ''toLocaleString'', ''toString'', ''valueOf'', ''__proto__'',
      ''__defineGetter__'', ''__defineSetter__'', ''__lookupGetter__'',
      ''__lookupSetter__'']"

definition reaction_step ::
  "NUser option \<Rightarrow> (string \<rightharpoonup> ReactionEntry) \<Rightarrow> NostrEvent
     \<Rightarrow> error + (string \<rightharpoonup> ReactionEntry)" where
  "reaction_step user acc reaction =
     (let content' = content_or_plus reaction
      in if List.member Object_prototype_keys content' then Inl TypeError
         else
           let entry0 = (case acc content' of
                           None \<Rightarrow> \<lparr>count = 0, users = [], hasReacted = False\<rparr>
                         | Some entry \<Rightarrow> entry);
               entry1 = entry0\<lparr>count := count entry0 + 1,
                               users := users entry0 @ [pubkey reaction]\<rparr>;
               entry2 = (if (case user of
                               None \<Rightarrow> False
                             | Some u \<Rightarrow> pubkey reaction = user_pubkey u)
                         then entry1\<lparr>hasReacted := True\<rparr> else entry1)
           in Inr (acc(content' \<mapsto> entry2)))"

fun reaction_reduce ::
  "NUser option \<Rightarrow> (string \<rightharpoonup> ReactionEntry) \<Rightarrow> NostrEvent list
     \<Rightarrow> error + (string \<rightharpoonup> ReactionEntry)" where
  "reaction_reduce user acc [] = Inr acc"
| "reaction_reduce user acc (reaction # rest) =
     (case reaction_step user acc reaction of
        Inl err \<Rightarrow> Inl err
      | Inr acc' \<Rightarrow> reaction_reduce user acc' rest)"

definition useReactions_queryFn ::
  "world \<Rightarrow> NUser option \<Rightarrow> string
     \<Rightarrow> (error + (string \<rightharpoonup> ReactionEntry)) \<times> call list" where
  "useReactions_queryFn w user eventId =
     (let signal = AbortSignal_any [CallerSignal, AbortSignal_timeout 3000];
          filters = [\<lparr>kinds = [7], authors = None, tag_e = Some [eventId],
                      limit = 100, until = None\<rparr>]
      in (case nostr_query w filters signal of
            Inl err \<Rightarrow> (Inl err, [Nostr_query filters signal])
          | Inr events' \<Rightarrow>
              let validReactions = filter validateReactionEvent events'
              in (reaction_reduce user Map.empty validReactions,
                  [Nostr_query filters signal])))"

subsection \<open>\<^verbatim>\<open>useReactToPost\<close>: the mutation function\<close>

text \<open>
  An argument left out takes its default (\<^verbatim>\<open>reaction = '+'\<close>, \<^verbatim>\<open>kind = '20'\<close>);
  \<^verbatim>\<open>Math.floor(Date.now() / 1000)\<close> is the clock in milliseconds divided by 1000.
\<close>

definition useReactToPost_mutationFn ::
  "world \<Rightarrow> NUser option \<Rightarrow> string \<Rightarrow> string \<Rightarrow> string option \<Rightarrow> string option
     \<Rightarrow> (error + NostrEvent) \<times> call list" where
  "useReactToPost_mutationFn w user eventId authorPubkey reaction kind' =
     (case user_signer user of
        None \<Rightarrow> (Inl (Error ''User not logged in''), [])
      | Some signer0 \<Rightarrow>
          let template =
                \<lparr>kind = 7,
                 content = (case reaction of None \<Rightarrow> ''+'' | Some r \<Rightarrow> r),
                 tags = [[''e'', eventId], [''p'', authorPubkey],
                         [''k'', (case kind' of None \<Rightarrow> ''20'' | Some k \<Rightarrow> k)]],
                 created_at = Date_now w div 1000\<rparr>
          in (case signEvent signer0 template of
                Inl err \<Rightarrow> (Inl err, [Signer_signEvent template])
              | Inr event \<Rightarrow>
                  (case nostr_event w event of
                     Inl err \<Rightarrow> (Inl err, [Signer_signEvent template, Nostr_event event])
                   | Inr _ \<Rightarrow> (Inr event, [Signer_signEvent template, Nostr_event event]))))"

subsection \<open>\<^verbatim>\<open>useRemoveReaction\<close>: the mutation function\<close>

definition useRemoveReaction_mutationFn ::
  "world \<Rightarrow> NUser option \<Rightarrow> string \<Rightarrow> string option
     \<Rightarrow> (error + NostrEvent) \<times> call list" where
  "useRemoveReaction_mutationFn w user eventId reaction =
     (case user of
        None \<Rightarrow> (Inl (Error ''User not logged in''), [])
      | Some u \<Rightarrow>
          (case signer u of
             None \<Rightarrow> (Inl (Error ''User not logged in''), [])
           | Some signer0 \<Rightarrow>
               let reaction' = (case reaction of None \<Rightarrow> ''+'' | Some r \<Rightarrow> r);
                   filters = [\<lparr>kinds = [7], authors = Some [user_pubkey u],
                               tag_e = Some [eventId], limit = 10, until = None\<rparr>];
                   signal = AbortSignal_timeout 3000;
                   q = Nostr_query filters signal
               in (case nostr_query w filters signal of
                     Inl err \<Rightarrow> (Inl err, [q])
                   | Inr existingReactions \<Rightarrow>
                       (case find (\<lambda>r. content_or_plus r = reaction') existingReactions of
                          None \<Rightarrow> (Inl (Error ''Reaction not found''), [q])
                        | Some reactionToRemove \<Rightarrow>
                            let template =
                                  \<lparr>kind = 5,
                                   content = ''Removing reaction'',
                                   tags = [[''e'', id' reactionToRemove]],
                                   created_at = Date_now w div 1000\<rparr>
                            in (case signEvent signer0 template of
                                  Inl err \<Rightarrow> (Inl err, [q, Signer_signEvent template])
                                | Inr deletionEvent \<Rightarrow>
                                    (case nostr_event w deletionEvent of
                                       Inl err \<Rightarrow>
                                         (Inl err, [q, Signer_signEvent template,
                                                    Nostr_event deletionEvent])
                                     | Inr _ \<Rightarrow>
                                         (Inr deletionEvent,
                                          [q, Signer_signEvent template,
                                           Nostr_event deletionEvent])))))))"

section \<open>The specification's wording and test fixtures\<close>

text \<open>
  The validator as the specification words it: the kind is 20, and the event has a title
  tag with a value or an imeta tag whose value contains \<^verbatim>\<open>url\<close>.
\<close>

definition spec_validateImageEvent :: "NostrEvent \<Rightarrow> bool" where
  "spec_validateImageEvent e =
     (kind e = 20 \<and>
      (list_ex (\<lambda>t. tag_named ''title'' t \<and> truthy (at1 t)) (tags e) \<or>
       list_ex (\<lambda>t. tag_named ''imeta'' t \<and>
                     (case at1 t of None \<Rightarrow> False | Some v \<Rightarrow> String_includes v ''url''))
         (tags e)))"

text \<open>
  A picture event with a title whose imeta tag lists the dimensions before the URL, one
  whose only tag is a bare imeta tag, one with no tags, and a well-formed one.
\<close>

definition fx_titled :: NostrEvent where
  "fx_titled =
     \<lparr>kind = 20, content = ''sunset'',
      tags = [[''title'', ''Sunset''],
              [''imeta'', ''dim 3024x4032'', ''url https://example.com/a.jpg'']],
      created_at = 1700000000, id' = ''a1'', pubkey = ''alice'', sig = ''s1''\<rparr>"

definition fx_bare_imeta :: NostrEvent where
  "fx_bare_imeta =
     \<lparr>kind = 20, content = '''', tags = [[''imeta'']],
      created_at = 1700000100, id' = ''a2'', pubkey = ''alice'', sig = ''s2''\<rparr>"

definition fx_untagged :: NostrEvent where
  "fx_untagged =
     \<lparr>kind = 20, content = ''no tags'', tags = [],
      created_at = 1700000200, id' = ''a3'', pubkey = ''alice'', sig = ''s3''\<rparr>"

definition fx_picture :: "string \<Rightarrow> int \<Rightarrow> NostrEvent" where
  "fx_picture i t =
     \<lparr>kind = 20, content = ''picture'',
      tags = [[''title'', ''Harbour''], [''imeta'', ''url https://example.com/b.jpg'']],
      created_at = t, id' = i, pubkey = ''alice'', sig = ''s4''\<rparr>"

text \<open>The module's state when it is loaded: the shared pool variable is \<^verbatim>\<open>null\<close>.\<close>

definition initial_module_state :: module_state where
  "initial_module_state = \<lparr>sharedDiscoveryPool = None, constructed = 0\<rparr>"

text \<open>A world whose pool answers every query with the given events.\<close>

definition fx_world :: "NostrEvent list \<Rightarrow> world" where
  "fx_world evs =
     \<lparr>pool_query = (\<lambda>pool filters signal. Inr evs),
      nostr_query = (\<lambda>filters signal. Inr evs),
      nostr_event = (\<lambda>event. Inr ()),
      Date_now = 1700000000000\<rparr>"

text \<open>
  The signals of the relay queries in a trace, and a signal as the specification words
  it: one that combines the caller's cancellation token with a timeout.
\<close>

fun query_signals :: "call list \<Rightarrow> AbortSignal list" where
  "query_signals [] = []"
| "query_signals (Pool_query pool filters signal # cs) = signal # query_signals cs"
| "query_signals (Nostr_query filters signal # cs) = signal # query_signals cs"
| "query_signals (c # cs) = query_signals cs"

fun is_timeout :: "AbortSignal \<Rightarrow> bool" where
  "is_timeout (AbortSignal_timeout ms) = True"
| "is_timeout s = False"

fun spec_combined_signal :: "AbortSignal \<Rightarrow> bool" where
  "spec_combined_signal (AbortSignal_any signals) =
     (List.member signals CallerSignal \<and> list_ex is_timeout signals)"
| "spec_combined_signal s = False"

text \<open>
  The fire emoji (U+1F525) in UTF-8, a reaction to the event \<^verbatim>\<open>a1\<close> of \<^verbatim>\<open>alice\<close>, a
  signer that signs whatever it is given, and a logged-in user.
\<close>

definition fire_emoji :: string where
  "fire_emoji = [CHR 0xF0, CHR 0x9F, CHR 0x94, CHR 0xA5]"

definition fx_reaction :: "string \<Rightarrow> string \<Rightarrow> string \<Rightarrow> NostrEvent" where
  "fx_reaction i pk c =
     \<lparr>kind = 7, content = c, tags = [[''e'', ''a1''], [''p'', ''alice'']],
      created_at = 1700000600, id' = i, pubkey = pk, sig = ''s5''\<rparr>"

definition fx_signer :: "string \<Rightarrow> NostrSigner" where
  "fx_signer pk =
     \<lparr>signEvent = (\<lambda>t. Inr \<lparr>kind = kind t, content = content t, tags = tags t,
                               created_at = created_at t, id' = ''d1'', pubkey = pk,
                               sig = ''s6''\<rparr>)\<rparr>"

definition fx_user :: "string \<Rightarrow> NUser" where
  "fx_user pk = \<lparr>user_pubkey = pk, signer = Some (fx_signer pk)\<rparr>"

text \<open>
  The same event with an empty content replaced by \<^verbatim>\<open>+\<close>, and the same world with every
  answer of the relay relabelled so.
\<close>

definition plus_for_empty :: "NostrEvent \<Rightarrow> NostrEvent" where
  "plus_for_empty e = (if content e = [] then e\<lparr>content := ''+''\<rparr> else e)"

definition relabelled :: "world \<Rightarrow> world" where
  "relabelled w =
     w\<lparr>nostr_query :=
         (\<lambda>filters signal.
            case nostr_query w filters signal of
              Inl err \<Rightarrow> Inl err
            | Inr evs \<Rightarrow> Inr (map plus_for_empty evs))\<rparr>"

section \<open>Properties\<close>

subsection \<open>Strings\<close>

text \<open>\<open>String_includes s n\<close> holds exactly when \<open>n\<close> occurs in \<open>s\<close> as a substring.\<close>

lemma startsWith_iff: "startsWith s n \<longleftrightarrow> (\<exists>q. s = n @ q)"
  by (induction s n rule: startsWith.induct) auto

lemma String_includes_iff: "String_includes s n \<longleftrightarrow> (\<exists>p q. s = p @ n @ q)"
proof (induction s)
  case Nil
  then show ?case by simp
next
  case (Cons c s)
  show ?case
  proof
    assume "String_includes (c # s) n"
    then consider "startsWith (c # s) n" | "String_includes s n" by auto
    then show "\<exists>p q. c # s = p @ n @ q"
    proof cases
      case 1
      then obtain q where "c # s = n @ q" by (auto simp: startsWith_iff)
      then have "c # s = [] @ n @ q" by simp
      then show ?thesis by blast
    next
      case 2
      then obtain p q where "s = p @ n @ q" using Cons.IH by blast
      then have "c # s = (c # p) @ n @ q" by simp
      then show ?thesis by blast
    qed
  next
    assume "\<exists>p q. c # s = p @ n @ q"
    then obtain p q where pq: "c # s = p @ n @ q" by blast
    show "String_includes (c # s) n"
    proof (cases p)
      case Nil
      with pq have "startsWith (c # s) n" by (auto simp: startsWith_iff)
      then show ?thesis by simp
    next
      case (Cons d p')
      with pq have "s = p' @ n @ q" by simp
      then have "String_includes s n" using Cons.IH by blast
      then show ?thesis by simp
    qed
  qed
qed

subsection \<open>Deduplication and sorting\<close>

text \<open>
  The \<^verbatim>\<open>reduce\<close> keeps the ids distinct, keeps every id, and keeps of each id the
  first event that has it. \<open>Array_sort\<close> permutes its input; with the comparator of the
  hook the result is ordered newest first, and events of one timestamp stay in the order
  they had (the sort is stable).
\<close>

lemma find_None_id: "find (\<lambda>e. id' e = i) acc = None \<longleftrightarrow> i \<notin> id' ` set acc"
  by (auto simp: find_None_iff)

lemma dedupe_distinct:
  "distinct (map id' acc) \<Longrightarrow> distinct (map id' (foldl dedupe_step acc xs))"
  by (induction xs arbitrary: acc) (auto simp: dedupe_step_def find_None_id)

lemma dedupe_first:
  "e \<in> set (foldl dedupe_step acc xs) \<Longrightarrow>
     e \<in> set acc \<or> (id' e \<notin> id' ` set acc \<and> find (\<lambda>x. id' x = id' e) xs = Some e)"
proof (induction xs arbitrary: acc)
  case Nil
  then show ?case by simp
next
  case (Cons x xs)
  from Cons.prems have "e \<in> set (foldl dedupe_step (dedupe_step acc x) xs)" by simp
  from Cons.IH [OF this] show ?case
    by (auto simp: dedupe_step_def find_None_id split: if_splits)
qed

lemma dedupe_ids:
  "id' ` set (foldl dedupe_step acc xs) = id' ` set acc \<union> id' ` set xs"
  by (induction xs arbitrary: acc) (auto simp: dedupe_step_def find_None_id)

lemma set_insert_by: "set (insert_by cmp x ys) = insert x (set ys)"
  by (induction ys) auto

lemma Array_sort_Cons: "Array_sort cmp (x # xs) = insert_by cmp x (Array_sort cmp xs)"
  by (simp add: Array_sort_def)

lemma Array_sort_Nil: "Array_sort cmp [] = []"
  by (simp add: Array_sort_def)

lemma set_Array_sort: "set (Array_sort cmp xs) = set xs"
  by (induction xs) (simp_all add: Array_sort_Nil Array_sort_Cons set_insert_by)

lemma distinct_insert_by:
  "distinct (map f (insert_by cmp x ys)) \<longleftrightarrow> f x \<notin> f ` set ys \<and> distinct (map f ys)"
  by (induction ys) (auto simp: set_insert_by)

lemma distinct_Array_sort:
  "distinct (map f (Array_sort cmp xs)) \<longleftrightarrow> distinct (map f xs)"
  by (induction xs)
     (simp_all add: Array_sort_Nil Array_sort_Cons distinct_insert_by set_Array_sort)

lemma newest_first_insert_by:
  "sorted_wrt (\<lambda>a b. created_at b \<le> created_at a) ys \<Longrightarrow> sorted_wrt (\<lambda>a b. created_at b \<le> created_at a) (insert_by (\<lambda>a b. created_at b - created_at a) x ys)"
  by (induction ys) (auto simp: set_insert_by)

lemma newest_first_Array_sort:
  "sorted_wrt (\<lambda>a b. created_at b \<le> created_at a) (Array_sort (\<lambda>a b. created_at b - created_at a) xs)"
  by (induction xs) (simp_all add: Array_sort_Nil Array_sort_Cons newest_first_insert_by)

lemma stable_insert_by:
  "filter (\<lambda>y. created_at y = k) (insert_by (\<lambda>a b. created_at b - created_at a) x ys) =
     filter (\<lambda>y. created_at y = k) (x # ys)"
  by (induction ys) auto

lemma stable_Array_sort:
  "filter (\<lambda>y. created_at y = k) (Array_sort (\<lambda>a b. created_at b - created_at a) xs) =
     filter (\<lambda>y. created_at y = k) xs"
  by (induction xs) (simp_all add: Array_sort_Nil Array_sort_Cons stable_insert_by)

lemma newest_first_last:
  "sorted_wrt (\<lambda>a b. created_at b \<le> created_at a) xs \<Longrightarrow> e \<in> set xs \<Longrightarrow>
     created_at (last xs) \<le> created_at e"
  by (induction xs) auto

lemma dedupe_empty_iff: "foldl dedupe_step [] xs = [] \<longleftrightarrow> xs = []"
proof -
  have "id' ` set (foldl dedupe_step [] xs) = id' ` set xs"
    using dedupe_ids [of "[]" xs] by simp
  then show ?thesis by (metis image_is_empty set_empty)
qed

lemma dedupe_replicate: "foldl dedupe_step [x] (replicate n x) = [x]"
  by (induction n) (simp_all add: dedupe_step_def)

text \<open>
  What a successful run of the query function looks like: either no call was made and the
  page is empty, or one query was sent and the page is built from its answer.
\<close>

lemma queryFn_Inr:
  assumes "useUserImagePosts_queryFn w pubkey' pageParam st = (Inr page, calls, st')"
  shows "(calls = [] \<and> events page = [] \<and> nextCursor page = None \<and> st' = st \<and>
            \<not> truthy pubkey') \<or>
         (\<exists>pool flt raw.
            calls = [Pool_query pool [flt]
                       (AbortSignal_any [CallerSignal, AbortSignal_timeout 10000])] \<and>
            pool_query w pool [flt]
              (AbortSignal_any [CallerSignal, AbortSignal_timeout 10000]) = Inr raw \<and>
            limit flt = 15 \<and> truthy pubkey' \<and>
            events page =
              Array_sort (\<lambda>a b. created_at b - created_at a)
                (foldl dedupe_step [] (filter validateImageEvent raw)) \<and>
            nextCursor page =
              (if length raw < 15 \<or> events page = [] then None
               else Some (created_at (last (events page)))))"
proof (cases "truthy pubkey'")
  case False
  with assms show ?thesis
    by (auto simp: useUserImagePosts_queryFn_def truthy_def split: option.splits)
next
  case True
  then obtain pk where pk: "pubkey' = Some pk" "pk \<noteq> []"
    by (auto simp: truthy_def split: option.splits)
  obtain pool st1 where gp: "getDiscoveryPool st = (pool, st1)"
    by (cases "getDiscoveryPool st")
  let ?filter0 =
    "\<lparr>kinds = [20], authors = Some [pk], tag_e = None, limit = 15, until = None\<rparr>"
  let ?flt = "(case pageParam of
                 None \<Rightarrow> ?filter0
               | Some p \<Rightarrow> if p \<noteq> 0 then ?filter0\<lparr>until := Some p\<rparr> else ?filter0)"
  let ?sg = "AbortSignal_any [CallerSignal, AbortSignal_timeout 10000]"
  have lim: "limit ?flt = 15"
    by (simp split: option.splits)
  show ?thesis
  proof (cases "pool_query w pool [?flt] ?sg")
    case (Inl err)
    with assms pk gp show ?thesis
      by (simp add: useUserImagePosts_queryFn_def Let_def)
  next
    case (Inr raw)
    with assms pk gp lim have
      "calls = [Pool_query pool [?flt] ?sg]"
      "events page =
         Array_sort (\<lambda>a b. created_at b - created_at a)
           (foldl dedupe_step [] (filter validateImageEvent raw))"
      "nextCursor page =
         (if length raw < 15 \<or> events page = [] then None
          else Some (created_at (last (events page))))"
      by (auto simp: useUserImagePosts_queryFn_def Let_def split: list.splits)
    with Inr lim True show ?thesis
      by blast
  qed
qed

subsection \<open>The reaction fold\<close>

text \<open>
  As long as no content names a property inherited from \<^verbatim>\<open>Object.prototype\<close>, the fold
  succeeds, and the entry of a key collects the events with that key: their number, their
  authors in order, and whether the viewer is one of them.
\<close>

lemma reaction_step_Inr:
  assumes "\<not> List.member Object_prototype_keys (content_or_plus r)"
  shows "reaction_step user acc r =
     Inr (acc(content_or_plus r \<mapsto>
       (let e0 = (case acc (content_or_plus r) of
                    None \<Rightarrow> \<lparr>count = 0, users = [], hasReacted = False\<rparr>
                  | Some x \<Rightarrow> x)
        in \<lparr>count = count e0 + 1, users = users e0 @ [pubkey r],
            hasReacted = (hasReacted e0 \<or>
              (\<exists>u. user = Some u \<and> user_pubkey u = pubkey r))\<rparr>)))"
proof -
  define e0 where "e0 = (case acc (content_or_plus r) of
                    None \<Rightarrow> \<lparr>count = 0, users = [], hasReacted = False\<rparr>
                  | Some x \<Rightarrow> x)"
  obtain c us h where e0: "e0 = \<lparr>count = c, users = us, hasReacted = h\<rparr>"
    by (cases e0)
  define v where "v \<longleftrightarrow> (\<exists>u. user = Some u \<and> user_pubkey u = pubkey r)"
  have viewer: "(case user of None \<Rightarrow> False | Some u \<Rightarrow> pubkey r = user_pubkey u) \<longleftrightarrow> v"
    unfolding v_def by (cases user) auto
  show ?thesis
    using assms
    unfolding reaction_step_def Let_def e0_def [symmetric] viewer v_def [symmetric]
    by (cases v) (simp_all add: e0)
qed

lemma reaction_reduce_lookup:
  assumes "\<forall>e\<in>set evs. \<not> List.member Object_prototype_keys (content_or_plus e)"
  shows "\<exists>acc'. reaction_reduce user acc evs = Inr acc' \<and>
           (\<forall>c. acc' c =
              (let ms = filter (\<lambda>e. content_or_plus e = c) evs;
                   e0 = (case acc c of
                           None \<Rightarrow> \<lparr>count = 0, users = [], hasReacted = False\<rparr>
                         | Some x \<Rightarrow> x)
               in if ms = [] then acc c
                  else Some \<lparr>count = count e0 + length ms,
                             users = users e0 @ map pubkey ms,
                             hasReacted = (hasReacted e0 \<or>
                               (\<exists>u. user = Some u \<and> user_pubkey u \<in> pubkey ` set ms))\<rparr>))"
  using assms
proof (induction evs arbitrary: acc)
  case Nil
  then show ?case by simp
next
  case (Cons r evs)
  let ?k = "content_or_plus r"
  from Cons.prems have ok: "\<not> List.member Object_prototype_keys ?k"
    and rest: "\<forall>e\<in>set evs. \<not> List.member Object_prototype_keys (content_or_plus e)"
    by simp_all
  obtain acc1 where step: "reaction_step user acc r = Inr acc1"
    and acc1: "acc1 = acc(?k \<mapsto>
       (let e0 = (case acc ?k of
                    None \<Rightarrow> \<lparr>count = 0, users = [], hasReacted = False\<rparr>
                  | Some x \<Rightarrow> x)
        in \<lparr>count = count e0 + 1, users = users e0 @ [pubkey r],
            hasReacted = (hasReacted e0 \<or> (\<exists>u. user = Some u \<and> user_pubkey u = pubkey r))\<rparr>))"
    using reaction_step_Inr [OF ok, of user acc] by simp
  from Cons.IH [OF rest, of acc1] obtain acc' where
    red: "reaction_reduce user acc1 evs = Inr acc'" and
    look: "\<And>c. acc' c =
              (let ms = filter (\<lambda>e. content_or_plus e = c) evs;
                   e0 = (case acc1 c of
                           None \<Rightarrow> \<lparr>count = 0, users = [], hasReacted = False\<rparr>
                         | Some x \<Rightarrow> x)
               in if ms = [] then acc1 c
                  else Some \<lparr>count = count e0 + length ms,
                             users = users e0 @ map pubkey ms,
                             hasReacted = (hasReacted e0 \<or>
                               (\<exists>u. user = Some u \<and> user_pubkey u \<in> pubkey ` set ms))\<rparr>)"
    by blast
  have "reaction_reduce user acc (r # evs) = Inr acc'"
    by (simp add: step red)
  moreover have "acc' c =
              (let ms = filter (\<lambda>e. content_or_plus e = c) (r # evs);
                   e0 = (case acc c of
                           None \<Rightarrow> \<lparr>count = 0, users = [], hasReacted = False\<rparr>
                         | Some x \<Rightarrow> x)
               in if ms = [] then acc c
                  else Some \<lparr>count = count e0 + length ms,
                             users = users e0 @ map pubkey ms,
                             hasReacted = (hasReacted e0 \<or>
                               (\<exists>u. user = Some u \<and> user_pubkey u \<in> pubkey ` set ms))\<rparr>)" for c
  proof (cases "c = ?k")
    case True
    show ?thesis
      unfolding True
      by (auto simp: look [of ?k] acc1 Let_def filter_empty_conv split: option.splits)
  next
    case False
    then have "content_or_plus r \<noteq> c" by simp
    with False show ?thesis
      by (simp add: look [of c] acc1 Let_def)
  qed
  ultimately show ?case by blast
qed

lemma fire_emoji_facts:
  "fire_emoji \<noteq> ''+''" "fire_emoji \<noteq> []"
  "\<not> List.member Object_prototype_keys fire_emoji"
  "\<not> List.member Object_prototype_keys ''+''"
  by (simp_all add: fire_emoji_def Object_prototype_keys_def)

text \<open>
  The fold fails only with a \<^verbatim>\<open>TypeError\<close>, and only on a content that names an inherited
  property. Neither hook can tell an empty content from \<^verbatim>\<open>+\<close>: relabelling the relay's
  answers changes nothing.
\<close>

lemma plus_for_empty_simps:
  "content_or_plus (plus_for_empty e) = content_or_plus e"
  "validateReactionEvent (plus_for_empty e) = validateReactionEvent e"
  "pubkey (plus_for_empty e) = pubkey e"
  "id' (plus_for_empty e) = id' e"
  by (simp_all add: plus_for_empty_def content_or_plus_def validateReactionEvent_def)

lemma reaction_step_plus_for_empty:
  "reaction_step user acc (plus_for_empty e) = reaction_step user acc e"
  unfolding reaction_step_def plus_for_empty_simps by (rule refl)

lemma reaction_reduce_plus_for_empty:
  "reaction_reduce user acc (map plus_for_empty evs) = reaction_reduce user acc evs"
  by (induction evs arbitrary: acc)
     (simp_all add: reaction_step_plus_for_empty split: sum.splits)

lemma filter_plus_for_empty:
  "filter validateReactionEvent (map plus_for_empty evs) =
     map plus_for_empty (filter validateReactionEvent evs)"
  by (induction evs) (simp_all add: plus_for_empty_simps)

lemma find_plus_for_empty:
  "find (\<lambda>r. content_or_plus r = k) (map plus_for_empty evs) =
     map_option plus_for_empty (find (\<lambda>r. content_or_plus r = k) evs)"
  by (induction evs) (simp_all add: plus_for_empty_simps)

lemma useReactions_relabelled:
  "useReactions_queryFn (relabelled w) user eventId = useReactions_queryFn w user eventId"
  by (simp add: useReactions_queryFn_def relabelled_def Let_def filter_plus_for_empty
      reaction_reduce_plus_for_empty split: sum.splits)

lemma useRemoveReaction_relabelled:
  "useRemoveReaction_mutationFn (relabelled w) viewer eventId reaction =
     useRemoveReaction_mutationFn w viewer eventId reaction"
  by (simp add: useRemoveReaction_mutationFn_def relabelled_def Let_def find_plus_for_empty
      plus_for_empty_simps split: sum.splits option.splits)

lemma reaction_step_TypeError:
  "List.member Object_prototype_keys (content_or_plus r) \<Longrightarrow>
     reaction_step user acc r = Inl TypeError"
  by (simp add: reaction_step_def)

lemma reaction_reduce_Inr_keys:
  "reaction_reduce user acc evs = Inr acc' \<Longrightarrow>
     \<forall>e\<in>set evs. \<not> List.member Object_prototype_keys (content_or_plus e)"
proof (induction evs arbitrary: acc)
  case Nil
  then show ?case by simp
next
  case (Cons r evs)
  show ?case
  proof (cases "reaction_step user acc r")
    case (Inl err)
    with Cons.prems show ?thesis by simp
  next
    case (Inr acc1)
    with Cons.prems have red: "reaction_reduce user acc1 evs = Inr acc'" by simp
    from Inr have "\<not> List.member Object_prototype_keys (content_or_plus r)"
      using reaction_step_TypeError [of r user acc] by auto
    with Cons.IH [OF red] show ?thesis by simp
  qed
qed

lemma reaction_reduce_Inl:
  "reaction_reduce user acc evs = Inl err \<Longrightarrow>
     err = TypeError \<and> (\<exists>e\<in>set evs. List.member Object_prototype_keys (content_or_plus e))"
proof (induction evs arbitrary: acc)
  case Nil
  then show ?case by simp
next
  case (Cons r evs)
  show ?case
  proof (cases "List.member Object_prototype_keys (content_or_plus r)")
    case True
    with Cons.prems show ?thesis by (simp add: reaction_step_TypeError)
  next
    case False
    from reaction_step_Inr [OF False, of user acc] obtain acc1 where
      "reaction_step user acc r = Inr acc1" by blast
    with Cons.prems have "reaction_reduce user acc1 evs = Inl err" by simp
    from Cons.IH [OF this] show ?thesis by simp
  qed
qed

text \<open>
  A reaction whose content names an inherited property makes the whole aggregation throw,
  whatever else the relay answered.
\<close>

lemma useReactions_TypeError_example:
  "fst (useReactions_queryFn
     (fx_world [fx_reaction ''r0'' ''carol'' ''constructor'', fx_reaction ''r2'' ''bob'' []])
     None ''a1'') = Inl TypeError"
proof -
  have valid: "validateReactionEvent (fx_reaction i pk c)" for i pk c
    by (simp add: validateReactionEvent_def fx_reaction_def tag_named_def at1_def truthy_def)
  have "List.member Object_prototype_keys
      (content_or_plus (fx_reaction ''r0'' ''carol'' ''constructor''))"
    by (simp add: content_or_plus_def fx_reaction_def Object_prototype_keys_def)
  then show ?thesis
    by (simp add: useReactions_queryFn_def Let_def fx_world_def valid reaction_step_TypeError)
qed

subsection \<open>The image event validator\<close>

text \<open>
  Claim C1, as amended. \<^verbatim>\<open>validateImageEvent(e)\<close> is true exactly when the kind of \<open>e\<close> is
  20 and either \<open>e\<close> has no imeta tag and the first title tag has a non-empty value, or
  \<open>e\<close> has an imeta tag and the second element of the first one is missing, empty or
  contains \<^verbatim>\<open>url\<close>.
\<close>

theorem validateImageEvent_characterisation:
  "validateImageEvent e \<longleftrightarrow>
     kind e = 20 \<and>
     (case find (tag_named ''imeta'') (tags e) of
        None \<Rightarrow>
          (\<exists>t v. find (tag_named ''title'') (tags e) = Some t \<and> at1 t = Some v \<and> v \<noteq> [])
      | Some t \<Rightarrow>
          (case at1 t of
             None \<Rightarrow> True
           | Some v \<Rightarrow> v = [] \<or> (\<exists>p q. v = p @ ''url'' @ q)))"
  by (auto simp: validateImageEvent_def Let_def truthy_def String_includes_iff
      split: option.splits)

theorem validateImageEvent_characterisation_witness:
  "validateImageEvent (fx_picture ''b1'' 1700000300) \<and>
   find (tag_named ''imeta'') (tags (fx_picture ''b1'' 1700000300)) =
     Some [''imeta'', ''url https://example.com/b.jpg'']"
proof -
  have "''url https://example.com/b.jpg'' = [] @ ''url'' @ '' https://example.com/b.jpg''"
    by simp
  then have "\<exists>p q. ''url https://example.com/b.jpg'' = p @ ''url'' @ q" by blast
  then show ?thesis
    using validateImageEvent_characterisation [of "fx_picture ''b1'' 1700000300"]
    by (simp add: fx_picture_def tag_named_def at1_def)
qed

text \<open>
  The validator is not the predicate the specification words. An event with a title
  whose first imeta value has no \<^verbatim>\<open>url\<close> in it is rejected, although it has a title
  tag with a value; an event whose only tag is a bare imeta tag is accepted, although no
  value of it contains \<^verbatim>\<open>url\<close>.
\<close>

theorem validateImageEvent_spec_counterexample:
  "spec_validateImageEvent fx_titled \<and> \<not> validateImageEvent fx_titled \<and>
   validateImageEvent fx_bare_imeta \<and> \<not> spec_validateImageEvent fx_bare_imeta"
  by (simp add: spec_validateImageEvent_def validateImageEvent_def fx_titled_def
      fx_bare_imeta_def tag_named_def at1_def truthy_def)

subsection \<open>The next cursor\<close>

text \<open>
  What the query function computes. The limit asked for is 15. For a page with at least
  one event the next cursor is absent exactly when fewer than 15 raw events came back, and
  otherwise it is the timestamp of the last event of the page, which is the oldest. A
  page is empty exactly when no raw event passes the validator, and then the cursor is
  absent whatever the raw count was.
\<close>

lemma nextCursor_computed:
  assumes "useUserImagePosts_queryFn w pubkey' pageParam st = (Inr page, calls, st')"
    and "Pool_query pool fs sg \<in> set calls"
    and "pool_query w pool fs sg = Inr raw"
  shows "map limit fs = [15] \<and>
         (nextCursor page = None \<longleftrightarrow>
            length raw < 15 \<or> \<not> list_ex validateImageEvent raw) \<and>
         (events page = [] \<longleftrightarrow> \<not> list_ex validateImageEvent raw) \<and>
         (nextCursor page \<noteq> None \<longrightarrow>
            nextCursor page = Some (created_at (last (events page))) \<and>
            (\<forall>e\<in>set (events page). created_at (last (events page)) \<le> created_at e))"
proof -
  let ?sg = "AbortSignal_any [CallerSignal, AbortSignal_timeout 10000]"
  from queryFn_Inr [OF assms(1)] assms(2)
  obtain pool' flt raw' where f:
    "calls = [Pool_query pool' [flt] ?sg]"
    "pool_query w pool' [flt] ?sg = Inr raw'"
    "limit flt = 15"
    "events page = Array_sort (\<lambda>a b. created_at b - created_at a)
                     (foldl dedupe_step [] (filter validateImageEvent raw'))"
    "nextCursor page = (if length raw' < 15 \<or> events page = [] then None
                        else Some (created_at (last (events page))))"
    by auto
  from f(1) assms(2) have same: "pool' = pool" "fs = [flt]" "sg = ?sg" by auto
  with f(2) assms(3) have raw: "raw' = raw" by simp
  have "events page = [] \<longleftrightarrow> filter validateImageEvent raw = []"
    using f(4) raw set_Array_sort [of "\<lambda>a b. created_at b - created_at a"
        "foldl dedupe_step [] (filter validateImageEvent raw)"]
      dedupe_empty_iff [of "filter validateImageEvent raw"]
    by (metis set_empty)
  then have empty: "events page = [] \<longleftrightarrow> \<not> list_ex validateImageEvent raw"
    by (simp add: list_ex_iff filter_empty_conv)
  have sorted: "sorted_wrt (\<lambda>a b. created_at b \<le> created_at a) (events page)"
    by (simp add: f(4) newest_first_Array_sort)
  have oldest: "\<forall>e\<in>set (events page). created_at (last (events page)) \<le> created_at e"
    using newest_first_last [OF sorted] by blast
  from f(3,5) raw same empty oldest show ?thesis by simp
qed

lemma nextCursor_computed_example:
  "nextCursor (projr (fst (useUserImagePosts_queryFn
      (fx_world [fx_picture ''b1'' 1700000300, fx_picture ''b2'' 1700000400])
      (Some ''alice'') None initial_module_state))) = None \<and>
   nextCursor (projr (fst (useUserImagePosts_queryFn
      (fx_world (replicate 15 (fx_picture ''b1'' 1700000300)))
      (Some ''alice'') (Some 1700000900) initial_module_state))) = Some 1700000300"
proof -
  let ?raw = "[fx_picture ''b1'' 1700000300, fx_picture ''b2'' 1700000400]"
  let ?w = "fx_world ?raw"
  let ?raw' = "replicate 15 (fx_picture ''b1'' 1700000300)"
  let ?w' = "fx_world ?raw'"
  let ?pool = "fst (getDiscoveryPool initial_module_state)"
  let ?flt = "\<lparr>kinds = [20], authors = Some [''alice''], tag_e = None, limit = 15,
               until = None\<rparr>"
  let ?flt' = "\<lparr>kinds = [20], authors = Some [''alice''], tag_e = None, limit = 15,
                until = Some 1700000900\<rparr>"
  let ?sg = "AbortSignal_any [CallerSignal, AbortSignal_timeout 10000]"
  let ?page = "\<lparr>events = [fx_picture ''b2'' 1700000400, fx_picture ''b1'' 1700000300],
                nextCursor = None\<rparr>"
  let ?page' = "\<lparr>events = [fx_picture ''b1'' 1700000300], nextCursor = Some 1700000300\<rparr>"
  have valid: "validateImageEvent (fx_picture i t)" for i t
    by (simp add: validateImageEvent_def fx_picture_def tag_named_def at1_def truthy_def)
  have run: "useUserImagePosts_queryFn ?w (Some ''alice'') None initial_module_state =
      (Inr ?page, [Pool_query ?pool [?flt] ?sg], snd (getDiscoveryPool initial_module_state))"
    by (simp add: useUserImagePosts_queryFn_def Let_def fx_world_def valid
        dedupe_step_def Array_sort_def split_beta)
       (simp add: fx_picture_def)
  have call: "Pool_query ?pool [?flt] ?sg \<in> set [Pool_query ?pool [?flt] ?sg]" by simp
  have resp: "pool_query ?w ?pool [?flt] ?sg = Inr ?raw" by (simp add: fx_world_def)
  have rep: "replicate 15 x = x # replicate 14 x" for x :: NostrEvent
    by (simp add: numeral_eq_Suc)
  have ded: "foldl dedupe_step [] (replicate 15 x) = [x]" for x
    unfolding rep by (simp add: dedupe_step_def dedupe_replicate)
  have run': "useUserImagePosts_queryFn ?w' (Some ''alice'') (Some 1700000900)
        initial_module_state =
      (Inr ?page', [Pool_query ?pool [?flt'] ?sg], snd (getDiscoveryPool initial_module_state))"
    by (simp add: useUserImagePosts_queryFn_def Let_def fx_world_def valid ded
        Array_sort_def split_beta)
       (simp add: fx_picture_def)
  have call': "Pool_query ?pool [?flt'] ?sg \<in> set [Pool_query ?pool [?flt'] ?sg]" by simp
  have resp': "pool_query ?w' ?pool [?flt'] ?sg = Inr ?raw'" by (simp add: fx_world_def)
  show ?thesis
    using nextCursor_computed [OF run call resp] nextCursor_computed [OF run' call' resp']
      run run'
    by simp
qed

text \<open>
  Claim C2 does not hold of the code. The relay answers with fifteen raw events, none of
  which passes the validator: the raw count is not below the limit, and yet the next
  cursor is absent, which ends the pagination. The comment above the cursor says to stop
  only when fewer raw events than the limit came back.
\<close>

theorem nextCursor_absent_on_full_invalid_page:
  "useUserImagePosts_queryFn (fx_world (replicate 15 fx_untagged)) (Some ''alice'') None
     initial_module_state =
     (Inr \<lparr>events = [], nextCursor = None\<rparr>,
      [Pool_query (fst (getDiscoveryPool initial_module_state))
         [\<lparr>kinds = [20], authors = Some [''alice''], tag_e = None, limit = 15,
           until = None\<rparr>]
         (AbortSignal_any [CallerSignal, AbortSignal_timeout 10000])],
      snd (getDiscoveryPool initial_module_state)) \<and>
   pool_query (fx_world (replicate 15 fx_untagged))
     (fst (getDiscoveryPool initial_module_state))
     [\<lparr>kinds = [20], authors = Some [''alice''], tag_e = None, limit = 15, until = None\<rparr>]
     (AbortSignal_any [CallerSignal, AbortSignal_timeout 10000]) =
     Inr (replicate 15 fx_untagged) \<and>
   \<not> length (replicate 15 fx_untagged) < 15"
proof -
  have invalid: "\<not> validateImageEvent fx_untagged"
    by (simp add: validateImageEvent_def fx_untagged_def truthy_def)
  show ?thesis
    by (simp add: useUserImagePosts_queryFn_def Let_def fx_world_def invalid
        Array_sort_def split_beta)
qed

subsection \<open>The page\<close>

text \<open>
  Claim C3. In every page the query function returns, the events have pairwise distinct
  ids, are ordered by non-increasing creation timestamp and all pass
  \<^verbatim>\<open>validateImageEvent\<close>; each is the first of the validated raw events with its id,
  and every id of a validated raw event is in the page.
\<close>

theorem page_invariants:
  assumes "useUserImagePosts_queryFn w pubkey' pageParam st = (Inr page, calls, st')"
  shows "distinct (map id' (events page)) \<and>
         sorted_wrt (\<lambda>a b. created_at b \<le> created_at a) (events page) \<and>
         (\<forall>e\<in>set (events page). validateImageEvent e) \<and>
         (\<forall>pool fs sg raw.
            Pool_query pool fs sg \<in> set calls \<and> pool_query w pool fs sg = Inr raw \<longrightarrow>
            (\<forall>e\<in>set (events page).
               find (\<lambda>x. id' x = id' e) (filter validateImageEvent raw) = Some e) \<and>
            id' ` set (events page) = id' ` {e \<in> set raw. validateImageEvent e})"
proof -
  let ?sg = "AbortSignal_any [CallerSignal, AbortSignal_timeout 10000]"
  let ?cmp = "\<lambda>a b :: NostrEvent. created_at b - created_at a"
  from queryFn_Inr [OF assms] consider
    (idle) "calls = []" "events page = []"
  | (fetch) pool flt raw where
      "calls = [Pool_query pool [flt] ?sg]"
      "pool_query w pool [flt] ?sg = Inr raw"
      "events page = Array_sort ?cmp (foldl dedupe_step [] (filter validateImageEvent raw))"
    by blast
  then show ?thesis
  proof cases
    case idle
    then show ?thesis by simp
  next
    case fetch
    let ?valid = "filter validateImageEvent raw"
    let ?unique = "foldl dedupe_step [] ?valid"
    have set_eq: "set (events page) = set ?unique"
      by (simp add: fetch(3) set_Array_sort)
    have d: "distinct (map id' (events page))"
      using dedupe_distinct [of "[]" ?valid]
      by (simp add: fetch(3) distinct_Array_sort)
    have s: "sorted_wrt (\<lambda>a b. created_at b \<le> created_at a) (events page)"
      by (simp add: fetch(3) newest_first_Array_sort)
    have first: "find (\<lambda>x. id' x = id' e) ?valid = Some e" if "e \<in> set (events page)" for e
      using dedupe_first [of e "[]" ?valid] that set_eq by simp
    have v: "validateImageEvent e" if "e \<in> set (events page)" for e
    proof -
      from first [OF that] have "e \<in> set ?valid"
        by (metis find_Some_iff nth_mem)
      then show ?thesis by simp
    qed
    have ids: "id' ` set (events page) = id' ` {e \<in> set raw. validateImageEvent e}"
      using dedupe_ids [of "[]" ?valid] set_eq by simp
    have resp: "raw' = raw"
      if "Pool_query pool' fs sg \<in> set calls" "pool_query w pool' fs sg = Inr raw'"
      for pool' fs sg raw'
      using that fetch(1,2) by auto
    from d s v first ids resp show ?thesis by blast
  qed
qed

theorem page_invariants_witness:
  "events (projr (fst (useUserImagePosts_queryFn
      (fx_world [fx_picture ''b1'' 1700000300, fx_untagged, fx_picture ''b2'' 1700000400,
                 fx_picture ''b1'' 1700000500])
      (Some ''alice'') None initial_module_state))) =
     [fx_picture ''b2'' 1700000400, fx_picture ''b1'' 1700000300] \<and>
   distinct (map id' [fx_picture ''b2'' 1700000400, fx_picture ''b1'' 1700000300]) \<and>
   validateImageEvent (fx_picture ''b2'' 1700000400) \<and>
   validateImageEvent (fx_picture ''b1'' 1700000300)"
proof -
  let ?raw = "[fx_picture ''b1'' 1700000300, fx_untagged, fx_picture ''b2'' 1700000400,
               fx_picture ''b1'' 1700000500]"
  let ?w = "fx_world ?raw"
  let ?pool = "fst (getDiscoveryPool initial_module_state)"
  let ?flt = "\<lparr>kinds = [20], authors = Some [''alice''], tag_e = None, limit = 15,
               until = None\<rparr>"
  let ?sg = "AbortSignal_any [CallerSignal, AbortSignal_timeout 10000]"
  let ?page = "\<lparr>events = [fx_picture ''b2'' 1700000400, fx_picture ''b1'' 1700000300],
                nextCursor = None\<rparr>"
  have valid: "validateImageEvent (fx_picture i t)" for i t
    by (simp add: validateImageEvent_def fx_picture_def tag_named_def at1_def truthy_def)
  have invalid: "\<not> validateImageEvent fx_untagged"
    by (simp add: validateImageEvent_def fx_untagged_def truthy_def)
  have run: "useUserImagePosts_queryFn ?w (Some ''alice'') None initial_module_state =
      (Inr ?page, [Pool_query ?pool [?flt] ?sg], snd (getDiscoveryPool initial_module_state))"
    by (simp add: useUserImagePosts_queryFn_def Let_def fx_world_def valid invalid
        dedupe_step_def Array_sort_def split_beta)
       (simp add: fx_picture_def)
  show ?thesis
    using page_invariants [OF run] run by simp
qed

subsection \<open>The shared pool\<close>

text \<open>
  Claim C8. Called while the shared pool variable is \<^verbatim>\<open>null\<close>, \<^verbatim>\<open>getDiscoveryPool\<close>
  constructs one pool and stores it; any number of calls later the accessor still returns
  that same pool and leaves the state, and so the number of pools constructed, unchanged.
\<close>

theorem getDiscoveryPool_singleton:
  assumes "sharedDiscoveryPool st = None" and "getDiscoveryPool st = (p, st')"
  shows "constructed st' = Suc (constructed st) \<and> ref p = constructed st \<and>
         sharedDiscoveryPool st' = Some p \<and>
         getDiscoveryPool (((snd \<circ> getDiscoveryPool) ^^ n) st') = (p, st')"
proof -
  from assms have first: "constructed st' = Suc (constructed st)" "ref p = constructed st"
    "sharedDiscoveryPool st' = Some p"
    by (auto simp: getDiscoveryPool_def Let_def)
  from first(3) have again: "getDiscoveryPool st' = (p, st')"
    by (simp add: getDiscoveryPool_def)
  have "((snd \<circ> getDiscoveryPool) ^^ n) st' = st'"
    by (induction n) (simp_all add: again)
  with first again show ?thesis by simp
qed

theorem getDiscoveryPool_singleton_witness:
  "sharedDiscoveryPool initial_module_state = None \<and>
   constructed (snd (getDiscoveryPool initial_module_state)) = 1 \<and>
   getDiscoveryPool (snd (getDiscoveryPool (snd (getDiscoveryPool initial_module_state)))) =
     getDiscoveryPool initial_module_state"
proof -
  have none: "sharedDiscoveryPool initial_module_state = None"
    by (simp add: initial_module_state_def)
  have pair: "getDiscoveryPool initial_module_state =
      (fst (getDiscoveryPool initial_module_state), snd (getDiscoveryPool initial_module_state))"
    by simp
  from getDiscoveryPool_singleton [OF none pair, of 1] none
  show ?thesis by (simp add: initial_module_state_def)
qed

subsection \<open>No author key\<close>

text \<open>
  Claim C10. Invoked with an undefined author key, the query function returns the empty
  page with no next cursor, makes no call to the relay pool and leaves the module state
  as it was.
\<close>

theorem queryFn_undefined_pubkey:
  "useUserImagePosts_queryFn w None pageParam st =
     (Inr \<lparr>events = [], nextCursor = None\<rparr>, [], st)"
  by (simp add: useUserImagePosts_queryFn_def)

theorem queryFn_undefined_pubkey_witness:
  "useUserImagePosts_queryFn (fx_world [fx_picture ''b1'' 1700000300]) None (Some 1700000000)
     initial_module_state =
     (Inr \<lparr>events = [], nextCursor = None\<rparr>, [], initial_module_state)"
  using queryFn_undefined_pubkey
    [of "fx_world [fx_picture ''b1'' 1700000300]" "Some 1700000000" initial_module_state]
  by simp

subsection \<open>Cancellation signals\<close>

text \<open>
  Claim C4, as amended. The relay query of the image-post page fetch and the one of the
  reaction aggregation carry a signal that combines the caller's cancellation token with
  a fixed timeout (10000 ms and 3000 ms): it is aborted as soon as the caller cancels
  or the time has passed. The lookup of the remove-reaction mutation carries the 3000 ms
  timeout alone: it is aborted when the time has passed, whatever the caller does.
\<close>

theorem query_signals_of_hooks:
  "(\<forall>s\<in>set (query_signals (fst (snd (useUserImagePosts_queryFn w pubkey' pageParam st)))).
      s = AbortSignal_any [CallerSignal, AbortSignal_timeout 10000] \<and>
      spec_combined_signal s \<and>
      (aborted cancelled elapsed s \<longleftrightarrow> cancelled \<or> 10000 \<le> elapsed)) \<and>
   (\<forall>s\<in>set (query_signals (snd (useReactions_queryFn w' user eventId))).
      s = AbortSignal_any [CallerSignal, AbortSignal_timeout 3000] \<and>
      spec_combined_signal s \<and>
      (aborted cancelled elapsed s \<longleftrightarrow> cancelled \<or> 3000 \<le> elapsed)) \<and>
   (\<forall>s\<in>set (query_signals (snd (useRemoveReaction_mutationFn w' user eventId reaction))).
      s = AbortSignal_timeout 3000 \<and>
      \<not> spec_combined_signal s \<and>
      (aborted cancelled elapsed s \<longleftrightarrow> 3000 \<le> elapsed))"
proof (intro conjI)
  show "\<forall>s\<in>set (query_signals (fst (snd (useUserImagePosts_queryFn w pubkey' pageParam st)))).
      s = AbortSignal_any [CallerSignal, AbortSignal_timeout 10000] \<and>
      spec_combined_signal s \<and>
      (aborted cancelled elapsed s \<longleftrightarrow> cancelled \<or> 10000 \<le> elapsed)"
    by (auto simp: useUserImagePosts_queryFn_def Let_def split_beta
        split: option.splits sum.splits)
  show "\<forall>s\<in>set (query_signals (snd (useReactions_queryFn w' user eventId))).
      s = AbortSignal_any [CallerSignal, AbortSignal_timeout 3000] \<and>
      spec_combined_signal s \<and>
      (aborted cancelled elapsed s \<longleftrightarrow> cancelled \<or> 3000 \<le> elapsed)"
    by (auto simp: useReactions_queryFn_def Let_def split: sum.splits)
  show "\<forall>s\<in>set (query_signals (snd (useRemoveReaction_mutationFn w' user eventId reaction))).
      s = AbortSignal_timeout 3000 \<and>
      \<not> spec_combined_signal s \<and>
      (aborted cancelled elapsed s \<longleftrightarrow> 3000 \<le> elapsed)"
    by (auto simp: useRemoveReaction_mutationFn_def Let_def split: option.splits sum.splits)
qed

theorem query_signals_of_hooks_witness:
  "query_signals (fst (snd (useUserImagePosts_queryFn (fx_world []) (Some ''alice'') None
      initial_module_state))) = [AbortSignal_any [CallerSignal, AbortSignal_timeout 10000]] \<and>
   aborted True 0 (AbortSignal_any [CallerSignal, AbortSignal_timeout 10000]) \<and>
   aborted False 10000 (AbortSignal_any [CallerSignal, AbortSignal_timeout 10000]) \<and>
   \<not> aborted False 9999 (AbortSignal_any [CallerSignal, AbortSignal_timeout 10000]) \<and>
   query_signals (snd (useReactions_queryFn (fx_world []) (Some (fx_user ''bob'')) ''a1'')) =
     [AbortSignal_any [CallerSignal, AbortSignal_timeout 3000]] \<and>
   query_signals (snd (useRemoveReaction_mutationFn (fx_world []) (Some (fx_user ''bob''))
      ''a1'' None)) = [AbortSignal_timeout 3000] \<and>
   \<not> aborted True 2999 (AbortSignal_timeout 3000)"
proof -
  have a: "query_signals (fst (snd (useUserImagePosts_queryFn (fx_world []) (Some ''alice'')
      None initial_module_state))) = [AbortSignal_any [CallerSignal, AbortSignal_timeout 10000]]"
    by (simp add: useUserImagePosts_queryFn_def Let_def fx_world_def split_beta)
  have b: "query_signals (snd (useReactions_queryFn (fx_world []) (Some (fx_user ''bob'')) ''a1'')) =
     [AbortSignal_any [CallerSignal, AbortSignal_timeout 3000]]"
    by (simp add: useReactions_queryFn_def Let_def fx_world_def)
  have c: "query_signals (snd (useRemoveReaction_mutationFn (fx_world [])
      (Some (fx_user ''bob'')) ''a1'' None)) = [AbortSignal_timeout 3000]"
    by (simp add: useRemoveReaction_mutationFn_def Let_def fx_world_def fx_user_def)
  note hooks = query_signals_of_hooks [of "fx_world []" "Some ''alice''" None
      initial_module_state True 0 "fx_world []" "Some (fx_user ''bob'')" "''a1''" None]
  have "aborted True 0 (AbortSignal_any [CallerSignal, AbortSignal_timeout 10000])"
    using hooks [unfolded a b c] by simp
  then show ?thesis
    using a b c by simp
qed

text \<open>
  The signal of the remove-reaction lookup is no combination with a caller's token: a
  cancellation by the caller before the timeout does not abort it.
\<close>

theorem remove_reaction_signal_counterexample:
  "query_signals (snd (useRemoveReaction_mutationFn (fx_world []) (Some (fx_user ''bob''))
      ''a1'' None)) = [AbortSignal_timeout 3000] \<and>
   \<not> spec_combined_signal (AbortSignal_timeout 3000) \<and>
   \<not> aborted True 0 (AbortSignal_timeout 3000)"
  by (simp add: useRemoveReaction_mutationFn_def Let_def fx_world_def fx_user_def)

subsection \<open>Removing a reaction that is not there\<close>

text \<open>
  Claim C5. With a signer present, when the query of the viewer's own reactions to the
  target returns no event that matches the requested content (an empty content counting
  as \<^verbatim>\<open>+\<close>, and \<^verbatim>\<open>+\<close> being requested when none is given), the mutation fails with
  the error \<^verbatim>\<open>Reaction not found\<close>, and the query is the only call it made: nothing is
  signed and nothing is published.
\<close>

theorem remove_reaction_not_found:
  assumes "user = Some u" and "signer u = Some s"
    and "nostr_query w
           [\<lparr>kinds = [7], authors = Some [user_pubkey u], tag_e = Some [eventId],
             limit = 10, until = None\<rparr>]
           (AbortSignal_timeout 3000) = Inr existing"
    and "\<forall>r\<in>set existing.
           content_or_plus r \<noteq> (case reaction of None \<Rightarrow> ''+'' | Some x \<Rightarrow> x)"
  shows "useRemoveReaction_mutationFn w user eventId reaction =
           (Inl (Error ''Reaction not found''),
            [Nostr_query
               [\<lparr>kinds = [7], authors = Some [user_pubkey u], tag_e = Some [eventId],
                 limit = 10, until = None\<rparr>]
               (AbortSignal_timeout 3000)])"
proof -
  from assms(4) have
    "find (\<lambda>r. content_or_plus r = (case reaction of None \<Rightarrow> ''+'' | Some x \<Rightarrow> x)) existing
       = None"
    by (simp add: find_None_iff)
  with assms(1-3) show ?thesis
    by (simp add: useRemoveReaction_mutationFn_def Let_def)
qed

theorem remove_reaction_not_found_witness:
  "useRemoveReaction_mutationFn (fx_world [fx_reaction ''r1'' ''bob'' fire_emoji])
     (Some (fx_user ''bob'')) ''a1'' None =
     (Inl (Error ''Reaction not found''),
      [Nostr_query
         [\<lparr>kinds = [7], authors = Some [''bob''], tag_e = Some [''a1''], limit = 10,
           until = None\<rparr>]
         (AbortSignal_timeout 3000)])"
proof -
  let ?w = "fx_world [fx_reaction ''r1'' ''bob'' fire_emoji]"
  have u: "Some (fx_user ''bob'') = Some (fx_user ''bob'')" by simp
  have s: "signer (fx_user ''bob'') = Some (fx_signer ''bob'')" by (simp add: fx_user_def)
  have q: "nostr_query ?w
      [\<lparr>kinds = [7], authors = Some [user_pubkey (fx_user ''bob'')], tag_e = Some [''a1''],
        limit = 10, until = None\<rparr>]
      (AbortSignal_timeout 3000) = Inr [fx_reaction ''r1'' ''bob'' fire_emoji]"
    by (simp add: fx_world_def)
  have n: "\<forall>r\<in>set [fx_reaction ''r1'' ''bob'' fire_emoji].
      content_or_plus r \<noteq> (case None of None \<Rightarrow> ''+'' | Some x \<Rightarrow> x)"
    by (simp add: content_or_plus_def fx_reaction_def fire_emoji_def)
  show ?thesis
    using remove_reaction_not_found [OF u s q n] by (simp add: fx_user_def)
qed

subsection \<open>Reacting without a signer\<close>

text \<open>
  Claim C6. Without a signer (nobody is logged in, or the user has none), the add-reaction
  mutation fails with the error \<^verbatim>\<open>User not logged in\<close> and makes no call at all:
  nothing is signed and nothing is published.
\<close>

theorem react_requires_signer:
  assumes "user = None \<or> (\<exists>u. user = Some u \<and> signer u = None)"
  shows "useReactToPost_mutationFn w user eventId authorPubkey reaction kind' =
           (Inl (Error ''User not logged in''), [])"
  using assms by (auto simp: useReactToPost_mutationFn_def user_signer_def)

theorem react_requires_signer_witness:
  "useReactToPost_mutationFn (fx_world []) None ''a1'' ''alice'' (Some fire_emoji) None =
     (Inl (Error ''User not logged in''), []) \<and>
   useReactToPost_mutationFn (fx_world []) (Some \<lparr>user_pubkey = ''bob'', signer = None\<rparr>)
     ''a1'' ''alice'' None None =
     (Inl (Error ''User not logged in''), [])"
proof -
  have a: "(None :: NUser option) = None \<or> (\<exists>u. (None :: NUser option) = Some u \<and> signer u = None)"
    by simp
  have b: "Some \<lparr>user_pubkey = ''bob'', signer = None\<rparr> = None \<or>
      (\<exists>u. Some \<lparr>user_pubkey = ''bob'', signer = None\<rparr> = Some u \<and> signer u = None)"
    by simp
  show ?thesis
    using react_requires_signer [OF a, of "fx_world []" "''a1''" "''alice''" "Some fire_emoji" None]
      react_requires_signer [OF b, of "fx_world []" "''a1''" "''alice''" None None]
    by simp
qed

subsection \<open>The reaction aggregate\<close>

text \<open>
  Claim C7. When the relay answers with three valid reaction events from distinct authors,
  two with content \<^verbatim>\<open>+\<close> and one with the fire emoji, in any order, the aggregate has
  exactly the two entries \<^verbatim>\<open>+\<close> (count 2) and fire (count 1), each with the authors of
  its reactions; an entry's \<^verbatim>\<open>hasReacted\<close> is true exactly when the viewer is one of
  its authors, so never for both entries.
\<close>

theorem reactions_aggregate_example:
  assumes resp: "nostr_query w
        [\<lparr>kinds = [7], authors = None, tag_e = Some [eventId], limit = 100, until = None\<rparr>]
        (AbortSignal_any [CallerSignal, AbortSignal_timeout 3000]) = Inr evs"
    and valid: "\<forall>e\<in>set evs. validateReactionEvent e"
    and three: "length evs = 3"
    and plus2: "count_list (map content evs) ''+'' = 2"
    and fire1: "count_list (map content evs) fire_emoji = 1"
    and authors: "distinct (map pubkey evs)"
  shows "\<exists>plus flame.
           fst (useReactions_queryFn w user eventId) =
             Inr [''+'' \<mapsto> plus, fire_emoji \<mapsto> flame] \<and>
           count plus = 2 \<and> count flame = 1 \<and>
           users plus = map pubkey (filter (\<lambda>e. content e = ''+'') evs) \<and>
           users flame = map pubkey (filter (\<lambda>e. content e = fire_emoji) evs) \<and>
           (hasReacted plus \<longleftrightarrow> (\<exists>u. user = Some u \<and> user_pubkey u \<in> set (users plus))) \<and>
           (hasReacted flame \<longleftrightarrow> (\<exists>u. user = Some u \<and> user_pubkey u \<in> set (users flame))) \<and>
           \<not> (hasReacted plus \<and> hasReacted flame)"
proof -
  let ?P = "filter (\<lambda>e. content e = ''+'') evs"
  let ?F = "filter (\<lambda>e. content e = fire_emoji) evs"
  from three obtain a b c where abc: "evs = [a, b, c]"
    by (cases evs; cases "tl evs"; cases "tl (tl evs)") auto
  have contents: "content e = ''+'' \<or> content e = fire_emoji" if "e \<in> set evs" for e
    using that plus2 fire1 fire_emoji_facts(1) unfolding abc
    by (auto split: if_splits)
  have key: "content_or_plus e = content e" if "e \<in> set evs" for e
    using contents [OF that] fire_emoji_facts(2) by (auto simp: content_or_plus_def)
  have keyP: "filter (\<lambda>e. content_or_plus e = k) evs = filter (\<lambda>e. content e = k) evs" for k
    using key by (auto intro: filter_cong)
  have ok: "\<forall>e\<in>set evs. \<not> List.member Object_prototype_keys (content_or_plus e)"
    using contents key fire_emoji_facts(3,4) by metis
  have lenP: "length ?P = 2"
    using plus2 unfolding abc by (auto split: if_splits)
  have lenF: "length ?F = 1"
    using fire1 unfolding abc by (auto split: if_splits)
  have other: "filter (\<lambda>e. content e = k) evs = []" if "k \<noteq> ''+''" "k \<noteq> fire_emoji" for k
    using contents that by (auto simp: filter_empty_conv)
  from reaction_reduce_lookup [OF ok, of user Map.empty] obtain acc' where
    red: "reaction_reduce user Map.empty evs = Inr acc'" and
    look: "\<And>k. acc' k =
       (if filter (\<lambda>e. content e = k) evs = [] then None
        else Some \<lparr>count = length (filter (\<lambda>e. content e = k) evs),
                   users = map pubkey (filter (\<lambda>e. content e = k) evs),
                   hasReacted = (\<exists>u. user = Some u \<and>
                     user_pubkey u \<in> pubkey ` set (filter (\<lambda>e. content e = k) evs))\<rparr>)"
    unfolding keyP by (auto simp: Let_def)
  define plus where "plus = \<lparr>count = length ?P, users = map pubkey ?P,
      hasReacted = (\<exists>u. user = Some u \<and> user_pubkey u \<in> pubkey ` set ?P)\<rparr>"
  define flame where "flame = \<lparr>count = length ?F, users = map pubkey ?F,
      hasReacted = (\<exists>u. user = Some u \<and> user_pubkey u \<in> pubkey ` set ?F)\<rparr>"
  have "acc' k = [''+'' \<mapsto> plus, fire_emoji \<mapsto> flame] k" for k
    using lenP lenF other [of k] fire_emoji_facts(1)
    by (auto simp: look [of k] plus_def flame_def)
  then have agg: "acc' = [''+'' \<mapsto> plus, fire_emoji \<mapsto> flame]" by (rule ext)
  have all_valid: "filter validateReactionEvent evs = evs"
    using valid by (simp add: filter_id_conv)
  have run: "fst (useReactions_queryFn w user eventId) =
      Inr [''+'' \<mapsto> plus, fire_emoji \<mapsto> flame]"
    by (simp add: useReactions_queryFn_def Let_def resp all_valid red agg)
  have disj: "pubkey ` set ?P \<inter> pubkey ` set ?F = {}"
  proof -
    have "pubkey x \<noteq> pubkey y" if "x \<in> set ?P" "y \<in> set ?F" for x y
    proof -
      from that fire_emoji_facts(1) have "x \<noteq> y" "x \<in> set evs" "y \<in> set evs" by auto
      with authors show ?thesis by (auto simp: distinct_map inj_on_def)
    qed
    then show ?thesis by blast
  qed
  have not_both: "\<not> (hasReacted plus \<and> hasReacted flame)"
    using disj by (auto simp: plus_def flame_def)
  show ?thesis
    using run lenP lenF not_both
    by (intro exI [of _ plus] exI [of _ flame]) (simp add: plus_def flame_def)
qed

theorem reactions_aggregate_example_witness:
  "fst (useReactions_queryFn
      (fx_world [fx_reaction ''r1'' ''bob'' ''+'', fx_reaction ''r2'' ''carol'' fire_emoji,
                 fx_reaction ''r3'' ''dave'' ''+''])
      (Some (fx_user ''carol'')) ''a1'') =
     Inr [''+'' \<mapsto> \<lparr>count = 2, users = [''bob'', ''dave''], hasReacted = False\<rparr>,
          fire_emoji \<mapsto> \<lparr>count = 1, users = [''carol''], hasReacted = True\<rparr>]"
proof -
  let ?evs = "[fx_reaction ''r1'' ''bob'' ''+'', fx_reaction ''r2'' ''carol'' fire_emoji,
               fx_reaction ''r3'' ''dave'' ''+'']"
  let ?w = "fx_world ?evs"
  have resp: "nostr_query ?w
        [\<lparr>kinds = [7], authors = None, tag_e = Some [''a1''], limit = 100, until = None\<rparr>]
        (AbortSignal_any [CallerSignal, AbortSignal_timeout 3000]) = Inr ?evs"
    by (simp add: fx_world_def)
  have valid: "\<forall>e\<in>set ?evs. validateReactionEvent e"
    by (simp add: validateReactionEvent_def fx_reaction_def tag_named_def at1_def truthy_def)
  have three: "length ?evs = 3" by simp
  have plus2: "count_list (map content ?evs) ''+'' = 2"
    by (simp add: fx_reaction_def fire_emoji_def)
  have fire1: "count_list (map content ?evs) fire_emoji = 1"
    by (simp add: fx_reaction_def fire_emoji_def)
  have authors: "distinct (map pubkey ?evs)"
    by (simp add: fx_reaction_def)
  from reactions_aggregate_example [OF resp valid three plus2 fire1 authors,
      of "Some (fx_user ''carol'')"]
  obtain plus flame where
    run: "fst (useReactions_queryFn ?w (Some (fx_user ''carol'')) ''a1'') =
            Inr [''+'' \<mapsto> plus, fire_emoji \<mapsto> flame]"
    and c: "count plus = 2" "count flame = 1"
    and us: "users plus = map pubkey (filter (\<lambda>e. content e = ''+'') ?evs)"
      "users flame = map pubkey (filter (\<lambda>e. content e = fire_emoji) ?evs)"
    and h: "hasReacted plus \<longleftrightarrow>
        (\<exists>u. Some (fx_user ''carol'') = Some u \<and> user_pubkey u \<in> set (users plus))"
      "hasReacted flame \<longleftrightarrow>
        (\<exists>u. Some (fx_user ''carol'') = Some u \<and> user_pubkey u \<in> set (users flame))"
    by blast
  from us have us': "users plus = [''bob'', ''dave'']" "users flame = [''carol'']"
    by (simp_all add: fx_reaction_def fire_emoji_def)
  from h us' have h': "\<not> hasReacted plus" "hasReacted flame"
    by (simp_all add: fx_user_def)
  have "plus = \<lparr>count = 2, users = [''bob'', ''dave''], hasReacted = False\<rparr>"
    using c(1) us'(1) h'(1) by (cases plus) simp
  moreover have "flame = \<lparr>count = 1, users = [''carol''], hasReacted = True\<rparr>"
    using c(2) us'(2) h'(2) by (cases flame) simp
  ultimately show ?thesis using run by simp
qed

subsection \<open>An empty content is a like\<close>

text \<open>
  Claim C9. The fold step of a reaction with empty content is the step for \<^verbatim>\<open>+\<close>: it
  always succeeds and adds the reaction to the \<^verbatim>\<open>+\<close> entry. When the aggregation returns
  an aggregate, a valid reaction with empty content is counted in its \<^verbatim>\<open>+\<close> entry, and
  there is no entry for the empty string; it returns none only when it throws on the
  content of some other reaction. When \<^verbatim>\<open>+\<close> is to be removed (asked for or by default),
  the lookup picks an existing reaction with empty content, if no earlier one counts as
  \<^verbatim>\<open>+\<close>, and the deletion event that is signed refers to it. Both hooks give the same
  result and make the same calls when every empty content in the relay's answers is
  replaced by \<^verbatim>\<open>+\<close>.
\<close>

theorem empty_content_is_plus:
  assumes r: "content r = []"
    and resp: "nostr_query w
        [\<lparr>kinds = [7], authors = None, tag_e = Some [eventId], limit = 100, until = None\<rparr>]
        (AbortSignal_any [CallerSignal, AbortSignal_timeout 3000]) = Inr evs"
    and mem: "r \<in> set evs" "validateReactionEvent r"
    and viewer: "viewer = Some u" "signer u = Some s"
    and existing: "nostr_query w
        [\<lparr>kinds = [7], authors = Some [user_pubkey u], tag_e = Some [eventId'],
          limit = 10, until = None\<rparr>]
        (AbortSignal_timeout 3000) = Inr (before @ r' # after)"
    and r': "content r' = []" "\<forall>x\<in>set before. content_or_plus x \<noteq> ''+''"
    and plus: "reaction = None \<or> reaction = Some ''+''"
  shows "reaction_step user acc r =
           Inr (acc(''+'' \<mapsto>
             (let e0 = (case acc ''+'' of
                          None \<Rightarrow> \<lparr>count = 0, users = [], hasReacted = False\<rparr>
                        | Some x \<Rightarrow> x)
              in \<lparr>count = count e0 + 1, users = users e0 @ [pubkey r],
                  hasReacted = (hasReacted e0 \<or>
                    (\<exists>v. user = Some v \<and> user_pubkey v = pubkey r))\<rparr>))) \<and>
         (case fst (useReactions_queryFn w user eventId) of
            Inl err \<Rightarrow>
              err = TypeError \<and>
              (\<exists>e\<in>set evs. validateReactionEvent e \<and>
                 List.member Object_prototype_keys (content e))
          | Inr agg \<Rightarrow>
              agg [] = None \<and>
              (\<exists>entry. agg ''+'' = Some entry \<and> pubkey r \<in> set (users entry) \<and>
                 count entry =
                   length (filter (\<lambda>e. validateReactionEvent e \<and> content e \<in> {[], ''+''})
                     evs))) \<and>
         take 2 (snd (useRemoveReaction_mutationFn w viewer eventId' reaction)) =
           [Nostr_query
              [\<lparr>kinds = [7], authors = Some [user_pubkey u], tag_e = Some [eventId'],
                limit = 10, until = None\<rparr>]
              (AbortSignal_timeout 3000),
            Signer_signEvent
              \<lparr>kind = 5, content = ''Removing reaction'', tags = [[''e'', id' r']],
               created_at = Date_now w div 1000\<rparr>] \<and>
         useReactions_queryFn (relabelled w) user eventId =
           useReactions_queryFn w user eventId \<and>
         useRemoveReaction_mutationFn (relabelled w) viewer eventId' reaction =
           useRemoveReaction_mutationFn w viewer eventId' reaction"
proof (intro conjI)
  have key: "content_or_plus r = ''+''"
    using r by (simp add: content_or_plus_def)
  have "\<not> List.member Object_prototype_keys (content_or_plus r)"
    unfolding key by (rule fire_emoji_facts(4))
  from reaction_step_Inr [OF this, of user acc]
  show "reaction_step user acc r =
           Inr (acc(''+'' \<mapsto>
             (let e0 = (case acc ''+'' of
                          None \<Rightarrow> \<lparr>count = 0, users = [], hasReacted = False\<rparr>
                        | Some x \<Rightarrow> x)
              in \<lparr>count = count e0 + 1, users = users e0 @ [pubkey r],
                  hasReacted = (hasReacted e0 \<or>
                    (\<exists>v. user = Some v \<and> user_pubkey v = pubkey r))\<rparr>)))"
    unfolding key .
next
  let ?valid = "filter validateReactionEvent evs"
  let ?ms = "filter (\<lambda>e. content_or_plus e = ''+'') ?valid"
  have run: "fst (useReactions_queryFn w user eventId) =
      reaction_reduce user Map.empty ?valid"
    by (simp add: useReactions_queryFn_def Let_def resp)
  show "case fst (useReactions_queryFn w user eventId) of
            Inl err \<Rightarrow>
              err = TypeError \<and>
              (\<exists>e\<in>set evs. validateReactionEvent e \<and>
                 List.member Object_prototype_keys (content e))
          | Inr agg \<Rightarrow>
              agg [] = None \<and>
              (\<exists>entry. agg ''+'' = Some entry \<and> pubkey r \<in> set (users entry) \<and>
                 count entry =
                   length (filter (\<lambda>e. validateReactionEvent e \<and> content e \<in> {[], ''+''})
                     evs))"
  proof (cases "reaction_reduce user Map.empty ?valid")
    case (Inl err)
    from reaction_reduce_Inl [OF Inl] obtain e where
      e: "err = TypeError" "e \<in> set ?valid"
        "List.member Object_prototype_keys (content_or_plus e)"
      by blast
    have "content_or_plus e = content e"
      using e(3) fire_emoji_facts(4) by (auto simp: content_or_plus_def)
    with e have "\<exists>e\<in>set evs. validateReactionEvent e \<and>
        List.member Object_prototype_keys (content e)"
      by auto
    with e(1) Inl run show ?thesis by simp
  next
    case (Inr acc')
    from reaction_reduce_Inr_keys [OF Inr]
    have ok': "\<forall>e\<in>set ?valid. \<not> List.member Object_prototype_keys (content_or_plus e)" .
    from reaction_reduce_lookup [OF ok', of user Map.empty] Inr have
      look: "\<And>k. acc' k =
         (if filter (\<lambda>e. content_or_plus e = k) ?valid = [] then None
          else Some \<lparr>count = length (filter (\<lambda>e. content_or_plus e = k) ?valid),
                     users = map pubkey (filter (\<lambda>e. content_or_plus e = k) ?valid),
                     hasReacted = (\<exists>u. user = Some u \<and>
                       user_pubkey u \<in>
                         pubkey ` set (filter (\<lambda>e. content_or_plus e = k) ?valid))\<rparr>)"
      by (auto simp: Let_def)
    have never_empty: "content_or_plus e \<noteq> []" for e
      by (simp add: content_or_plus_def)
    have none: "acc' [] = None"
      by (simp add: look [of "[]"] never_empty)
    from r mem have in_ms: "r \<in> set ?ms"
      by (simp add: content_or_plus_def)
    then have ne: "?ms \<noteq> []" by (metis empty_iff set_empty)
    define entry where "entry = \<lparr>count = length ?ms, users = map pubkey ?ms,
        hasReacted = (\<exists>u. user = Some u \<and> user_pubkey u \<in> pubkey ` set ?ms)\<rparr>"
    have some: "acc' ''+'' = Some entry"
      using ne by (simp add: look [of "''+''"] entry_def)
    have in_users: "pubkey r \<in> set (users entry)"
      using in_ms by (simp add: entry_def)
    have "?ms = filter (\<lambda>e. validateReactionEvent e \<and> content e \<in> {[], ''+''}) evs"
      by (auto simp: content_or_plus_def intro: filter_cong)
    then have cnt: "count entry =
        length (filter (\<lambda>e. validateReactionEvent e \<and> content e \<in> {[], ''+''}) evs)"
      by (simp add: entry_def)
    from none some in_users cnt Inr run show ?thesis by simp
  qed
next
  have want: "(case reaction of None \<Rightarrow> ''+'' | Some x \<Rightarrow> x) = ''+''"
    using plus by auto
  have found: "find (\<lambda>x. content_or_plus x = ''+'') (before @ r' # after) = Some r'"
    using r' by (induction before) (simp_all add: content_or_plus_def)
  show "take 2 (snd (useRemoveReaction_mutationFn w viewer eventId' reaction)) =
           [Nostr_query
              [\<lparr>kinds = [7], authors = Some [user_pubkey u], tag_e = Some [eventId'],
                limit = 10, until = None\<rparr>]
              (AbortSignal_timeout 3000),
            Signer_signEvent
              \<lparr>kind = 5, content = ''Removing reaction'', tags = [[''e'', id' r']],
               created_at = Date_now w div 1000\<rparr>]"
    using viewer existing
    by (simp add: useRemoveReaction_mutationFn_def Let_def want found split: sum.splits)
next
  show "useReactions_queryFn (relabelled w) user eventId = useReactions_queryFn w user eventId"
    by (rule useReactions_relabelled)
next
  show "useRemoveReaction_mutationFn (relabelled w) viewer eventId' reaction =
      useRemoveReaction_mutationFn w viewer eventId' reaction"
    by (rule useRemoveReaction_relabelled)
qed

theorem empty_content_is_plus_witness:
  "reaction_step None Map.empty (fx_reaction ''r2'' ''bob'' []) =
     Inr [''+'' \<mapsto> \<lparr>count = 1, users = [''bob''], hasReacted = False\<rparr>] \<and>
   (\<exists>agg entry.
      fst (useReactions_queryFn
        (fx_world [fx_reaction ''r1'' ''bob'' fire_emoji, fx_reaction ''r2'' ''bob'' []])
        None ''a1'') = Inr agg \<and>
      agg [] = None \<and> agg ''+'' = Some entry \<and> ''bob'' \<in> set (users entry) \<and>
      count entry = 1) \<and>
   take 2 (snd (useRemoveReaction_mutationFn
        (fx_world [fx_reaction ''r1'' ''bob'' fire_emoji, fx_reaction ''r2'' ''bob'' []])
        (Some (fx_user ''bob'')) ''a1'' None)) =
     [Nostr_query
        [\<lparr>kinds = [7], authors = Some [''bob''], tag_e = Some [''a1''], limit = 10,
          until = None\<rparr>]
        (AbortSignal_timeout 3000),
      Signer_signEvent
        \<lparr>kind = 5, content = ''Removing reaction'', tags = [[''e'', ''r2'']],
         created_at = 1700000000\<rparr>] \<and>
   useReactions_queryFn
     (relabelled (fx_world [fx_reaction ''r1'' ''bob'' fire_emoji,
                            fx_reaction ''r2'' ''bob'' []]))
     None ''a1'' =
   useReactions_queryFn
     (fx_world [fx_reaction ''r1'' ''bob'' fire_emoji, fx_reaction ''r2'' ''bob'' []])
     None ''a1''"
proof -
  let ?r1 = "fx_reaction ''r1'' ''bob'' fire_emoji"
  let ?r2 = "fx_reaction ''r2'' ''bob'' []"
  let ?w = "fx_world [?r1, ?r2]"
  have r: "content ?r2 = []" by (simp add: fx_reaction_def)
  have resp: "nostr_query ?w
        [\<lparr>kinds = [7], authors = None, tag_e = Some [''a1''], limit = 100, until = None\<rparr>]
        (AbortSignal_any [CallerSignal, AbortSignal_timeout 3000]) = Inr [?r1, ?r2]"
    by (simp add: fx_world_def)
  have valid: "validateReactionEvent (fx_reaction i pk c)" for i pk c
    by (simp add: validateReactionEvent_def fx_reaction_def tag_named_def at1_def truthy_def)
  have mem: "?r2 \<in> set [?r1, ?r2]" "validateReactionEvent ?r2"
    by (simp_all add: valid)
  have viewer: "Some (fx_user ''bob'') = Some (fx_user ''bob'')"
    "signer (fx_user ''bob'') = Some (fx_signer ''bob'')"
    by (simp_all add: fx_user_def)
  have existing: "nostr_query ?w
        [\<lparr>kinds = [7], authors = Some [user_pubkey (fx_user ''bob'')], tag_e = Some [''a1''],
          limit = 10, until = None\<rparr>]
        (AbortSignal_timeout 3000) = Inr ([?r1] @ ?r2 # [])"
    by (simp add: fx_world_def)
  have r': "content ?r2 = []" "\<forall>x\<in>set [?r1]. content_or_plus x \<noteq> ''+''"
    by (simp_all add: content_or_plus_def fx_reaction_def fire_emoji_def)
  have plus: "(None :: string option) = None \<or> None = Some ''+''" by simp
  note th = empty_content_is_plus [OF r resp mem viewer existing r' plus,
      of None Map.empty]
  have ok: "\<forall>e\<in>set (filter validateReactionEvent [?r1, ?r2]).
      \<not> List.member Object_prototype_keys (content_or_plus e)"
    by (simp add: content_or_plus_def fx_reaction_def fire_emoji_def Object_prototype_keys_def)
  from reaction_reduce_lookup [OF ok, of None Map.empty] obtain agg where
    "reaction_reduce None Map.empty (filter validateReactionEvent [?r1, ?r2]) = Inr agg"
    by blast
  then have run: "fst (useReactions_queryFn ?w None ''a1'') = Inr agg"
    by (simp add: useReactions_queryFn_def Let_def resp)
  have cnt: "length (filter (\<lambda>e. validateReactionEvent e \<and> content e \<in> {[], ''+''}) [?r1, ?r2])
      = 1"
    by (simp add: valid) (simp add: fx_reaction_def fire_emoji_def)
  have now: "Date_now ?w div 1000 = 1700000000" by (simp add: fx_world_def)
  have step: "reaction_step None Map.empty ?r2 =
      Inr [''+'' \<mapsto> \<lparr>count = 1, users = [''bob''], hasReacted = False\<rparr>]"
    using th by (simp add: fx_reaction_def)
  have hook: "\<exists>agg entry.
      fst (useReactions_queryFn ?w None ''a1'') = Inr agg \<and>
      agg [] = None \<and> agg ''+'' = Some entry \<and> ''bob'' \<in> set (users entry) \<and>
      count entry = 1"
    using th run cnt by (auto simp: fx_reaction_def)
  have lookup: "take 2 (snd (useRemoveReaction_mutationFn ?w (Some (fx_user ''bob'')) ''a1''
        None)) =
     [Nostr_query
        [\<lparr>kinds = [7], authors = Some [''bob''], tag_e = Some [''a1''], limit = 10,
          until = None\<rparr>]
        (AbortSignal_timeout 3000),
      Signer_signEvent
        \<lparr>kind = 5, content = ''Removing reaction'', tags = [[''e'', ''r2'']],
         created_at = 1700000000\<rparr>]"
    using th now by (simp add: fx_user_def fx_reaction_def)
  from step hook lookup th show ?thesis by blast
qed

end
